theory Spec2Isabelle
  imports Complex_Main "HOL-Library.Log_Nat"
begin

section \<open>The streaming record extractor (\<open>StreamingJSONParser\<close>)\<close>

text \<open>
  The parser object of \<^verbatim>\<open>packet_capture_fixed.py\<close>: a configured maximum buffer size and
  four mutable fields. One \<open>char\<close> stands for one character of the Python string; the
  scanner only ever compares a character with the four delimiters below.
\<close>

record parser =
  max_buffer_size :: int
  buffer :: string
  brace_count :: int
  in_string :: bool
  escape_next :: bool

definition new_parser :: "int \<Rightarrow> parser" where
  "new_parser m =
     \<lparr>max_buffer_size = m, buffer = [], brace_count = 0, in_string = False, escape_next = False\<rparr>"

definition default_max_buffer_size :: int where
  "default_max_buffer_size = 1024 * 1024"

definition backslash :: char where "backslash = CHR 0x5C"
definition dquote :: char where "dquote = CHR 0x22"
definition lbrace :: char where "lbrace = CHR ''{''"
definition rbrace :: char where "rbrace = CHR ''}''"

text \<open>
  Python's \<^verbatim>\<open>xs[k:]\<close>: a negative start counts from the end and is clamped at the
  beginning, a non-negative one is clamped at the end.
\<close>

definition slice_from :: "int \<Rightarrow> 'a list \<Rightarrow> 'a list" where
  "slice_from k xs =
     (if k < 0 then drop (nat (int (length xs) + k)) xs else drop (nat k) xs)"

text \<open>Python's \<^verbatim>\<open>xs[a:b]\<close> for indices \<open>a\<close>, \<open>b\<close> that are not negative.\<close>

definition slice :: "nat \<Rightarrow> nat \<Rightarrow> 'a list \<Rightarrow> 'a list" where
  "slice a b xs = take (b - a) (drop a xs)"

text \<open>
  \<^verbatim>\<open>json.loads\<close> is a parameter \<open>loads\<close> with three outcomes: the parsed object, the
  \<^verbatim>\<open>JSONDecodeError\<close> that \<^verbatim>\<open>feed\<close> catches (the substring is dropped all the same), and
  any other exception (\<^verbatim>\<open>RecursionError\<close> on deep nesting, \<^verbatim>\<open>ValueError\<close> on an integer of
  too many digits), which \<^verbatim>\<open>feed\<close> does not catch.
\<close>

datatype 'o loaded = Loaded 'o | Decode_error | Raised

text \<open>
  What a call of \<^verbatim>\<open>feed\<close> gives its caller: the list it returns, or the exception that
  left it, with which the objects found so far in the call are lost.
\<close>

datatype 'o fed = Returns "'o list" | Raises

fun emit :: "'o loaded \<Rightarrow> 'o list \<Rightarrow> 'o list" where
  "emit (Loaded obj) objects = objects @ [obj]"
| "emit Decode_error objects = objects"
| "emit Raised objects = objects"

text \<open>
  The \<^verbatim>\<open>while i < len(self.buffer)\<close> loop of \<^verbatim>\<open>feed\<close>. Its arguments are the loop's
  variables: the buffer, the index \<open>i\<close>, the local \<open>start_pos\<close>, the three scanner fields
  and the list of objects found so far. When a record closes, the buffer loses everything
  up to and including the closing brace and the index goes back to the start
  (\<^verbatim>\<open>i = -1\<close> followed by \<^verbatim>\<open>i += 1\<close>); \<open>start_pos\<close> keeps its value. When
  \<^verbatim>\<open>json.loads\<close> raises anything but \<^verbatim>\<open>JSONDecodeError\<close>, the loop is left at once: the brace
  count has been decremented already, the buffer has not been cut yet.
\<close>

function scan ::
  "(string \<Rightarrow> 'o loaded) \<Rightarrow> string \<Rightarrow> nat \<Rightarrow> nat \<Rightarrow> int \<Rightarrow> bool \<Rightarrow> bool \<Rightarrow> 'o list
     \<Rightarrow> 'o fed \<times> string \<times> int \<times> bool \<times> bool" where
  "scan loads buf i start_pos bc ins esc objects =
     (if i < length buf then
        (if esc then scan loads buf (i + 1) start_pos bc ins False objects
         else if buf ! i = backslash then scan loads buf (i + 1) start_pos bc ins True objects
         else if buf ! i = dquote \<and> \<not> esc then
           scan loads buf (i + 1) start_pos bc (\<not> ins) esc objects
         else if \<not> ins then
           (if buf ! i = lbrace then
              scan loads buf (i + 1) (if bc = 0 then i else start_pos) (bc + 1) ins esc objects
            else if buf ! i = rbrace then
              (if bc - 1 = 0 then
                 (if loads (slice start_pos (i + 1) buf) = Raised then
                    (Raises, buf, bc - 1, ins, esc)
                  else
                    scan loads (drop (i + 1) buf) 0 start_pos (bc - 1) ins esc
                      (emit (loads (slice start_pos (i + 1) buf)) objects))
               else scan loads buf (i + 1) start_pos (bc - 1) ins esc objects)
            else scan loads buf (i + 1) start_pos bc ins esc objects)
         else scan loads buf (i + 1) start_pos bc ins esc objects)
      else (Returns objects, buf, bc, ins, esc))"
  by pat_completeness auto
termination
  by (relation "measures [\<lambda>(loads, buf, i, sp, bc, ins, esc, objs). length buf,
                          \<lambda>(loads, buf, i, sp, bc, ins, esc, objs). length buf - i]") auto

declare scan.simps [simp del]

text \<open>
  \<^verbatim>\<open>feed\<close>: append the chunk, cut the buffer and reset the scanner fields when it has
  grown beyond the maximum, then run the loop from index 0 with \<open>start_pos = 0\<close> on the
  whole buffer, whatever the scanner fields were left at by the previous call.
  \<^verbatim>\<open>-self.max_buffer_size//2\<close> negates first and floors afterwards.
\<close>

definition truncate_buffer :: "parser \<Rightarrow> parser" where
  "truncate_buffer p =
     (if int (length (buffer p)) > max_buffer_size p then
        p\<lparr>buffer := slice_from ((- max_buffer_size p) div 2) (buffer p),
          brace_count := 0, in_string := False, escape_next := False\<rparr>
      else p)"

definition feed :: "(string \<Rightarrow> 'o loaded) \<Rightarrow> string \<Rightarrow> parser \<Rightarrow> 'o fed \<times> parser" where
  "feed loads data p =
     (let p1 = truncate_buffer (p\<lparr>buffer := buffer p @ data\<rparr>) in
      case scan loads (buffer p1) 0 0 (brace_count p1) (in_string p1) (escape_next p1) [] of
        (result, buf, bc, ins, esc) \<Rightarrow>
          (result, p1\<lparr>buffer := buf, brace_count := bc, in_string := ins, escape_next := esc\<rparr>))"

text \<open>
  Feeding a list of chunks in order, collecting what each call gives. The caller,
  \<^verbatim>\<open>_analyze_packets\<close>, catches an exception of \<^verbatim>\<open>feed\<close> and goes on with the next chunk.
\<close>

fun feed_all :: "(string \<Rightarrow> 'o loaded) \<Rightarrow> string list \<Rightarrow> parser \<Rightarrow> 'o fed list \<times> parser" where
  "feed_all loads [] p = ([], p)"
| "feed_all loads (c # cs) p =
     (case feed loads c p of (result, p') \<Rightarrow>
        (case feed_all loads cs p' of (rest, p'') \<Rightarrow> (result # rest, p'')))"

section \<open>Statistics and the quality metrics (\<open>EnhancedPacketCapture\<close>)\<close>

text \<open>
  Counters, byte lengths and sequence numbers are Python integers. Capture timestamps,
  wall-clock times and jitter values are Python floats, IEEE 754 doubles: a finite double is
  modelled by the real number it denotes, and an operation whose result the program rounds
  goes through \<open>to_double\<close>, the rounding of a real to the nearest double, ties to the even
  significand. A double has 53 significant bits; below 2 to the power -1022 the doubles
  are the multiples of 2 to the power -1074. A result beyond the largest double, which is
  infinite in the program, keeps its rounded real value here: both are outside every
  interval that the code below tests. Timestamps themselves are taken to be finite, as
  the decimal numbers are that the capture process prints.
\<close>

definition round_half_even :: "real \<Rightarrow> int" where
  "round_half_even x =
     (let f = \<lfloor>x\<rfloor>; r = x - of_int f
      in if r < 1 / 2 then f else if r > 1 / 2 then f + 1 else if even f then f else f + 1)"

definition pow2 :: "int \<Rightarrow> real" where
  "pow2 k = (if k \<ge> 0 then 2 ^ nat k else 1 / 2 ^ nat (- k))"

text \<open>
  The exponent of a positive real \<open>y\<close>: the integer \<open>e\<close> with \<open>pow2 e \<le> y < pow2 (e + 1)\<close>.
\<close>

definition exponent :: "real \<Rightarrow> int" where
  "exponent y = (if y \<ge> 1 then bitlen \<lfloor>y\<rfloor> - 1 else - bitlen (\<lceil>1 / y\<rceil> - 1))"

definition to_double :: "real \<Rightarrow> real" where
  "to_double x =
     (if x = 0 then 0
      else (let q = pow2 (max (exponent \<bar>x\<bar>) (- 1022) - 52)
            in of_int (round_half_even (x / q)) * q))"

record jitter_sample =
  js_timestamp :: real
  js_jitter :: real
  js_seq_num :: int

record bitrate_sample =
  bs_timestamp :: real
  bs_bytes :: int
  bs_real_time :: real

record statistics =
  total_packets :: int
  video_packets :: int
  rtp_packets :: int
  lost_packets :: int
  jitter_samples :: "jitter_sample list"
  delay_samples :: "real list"
  bitrate_samples :: "bitrate_sample list"
  start_time :: "real option"
  errors :: int

text \<open>The dictionary that \<^verbatim>\<open>__init__\<close> stores in \<^verbatim>\<open>self.statistics\<close>.\<close>

definition initial_statistics :: statistics where
  "initial_statistics =
     \<lparr>total_packets = 0, video_packets = 0, rtp_packets = 0, lost_packets = 0,
      jitter_samples = [], delay_samples = [], bitrate_samples = [],
      start_time = None, errors = 0\<rparr>"

definition video_ports :: "int list" where
  "video_ports = [554, 8000, 8080, 1935]"

definition rtp_payload_types :: "int list" where
  "rtp_payload_types = [96, 97, 98, 99, 26]"

subsection \<open>Port classifiers\<close>

text \<open>\<^verbatim>\<open>EnhancedPacketCapture._is_video_packet\<close> (\<^verbatim>\<open>packet_capture_fixed.py\<close>).\<close>

definition is_video_packet :: "int \<Rightarrow> int \<Rightarrow> bool" where
  "is_video_packet src_port dst_port \<longleftrightarrow>
     src_port \<in> set video_ports \<or> dst_port \<in> set video_ports \<or>
     (16384 \<le> src_port \<and> src_port \<le> 32767) \<or>
     (16384 \<le> dst_port \<and> dst_port \<le> 32767)"

text \<open>\<^verbatim>\<open>PacketCapture._is_video_packet\<close> (\<^verbatim>\<open>packet_capture.py\<close>), with the same port list.\<close>

definition is_video_packet_original :: "int \<Rightarrow> int \<Rightarrow> bool" where
  "is_video_packet_original src_port dst_port \<longleftrightarrow>
     src_port \<in> set video_ports \<or> dst_port \<in> set video_ports \<or>
     src_port \<ge> 16384 \<or> dst_port \<ge> 16384"

subsection \<open>Jitter and bitrate updates\<close>

text \<open>
  The double that \<^verbatim>\<open>(timestamp - last_sample['timestamp']) * 1000\<close> evaluates to: the
  difference is rounded, then the product.
\<close>

definition time_diff_ms :: "real \<Rightarrow> real \<Rightarrow> real" where
  "time_diff_ms timestamp last_timestamp =
     to_double (to_double (timestamp - last_timestamp) * 1000)"

text \<open>
  \<^verbatim>\<open>_calculate_jitter\<close>. The length check and the cut to \<^verbatim>\<open>[-500:]\<close> sit inside the
  branch that has just appended an accepted sample.
\<close>

definition calculate_jitter :: "real \<Rightarrow> int \<Rightarrow> statistics \<Rightarrow> statistics" where
  "calculate_jitter timestamp seq_num st =
     (if length (jitter_samples st) > 0 then
        (let last_sample = last (jitter_samples st);
             time_diff = time_diff_ms timestamp (js_timestamp last_sample)
         in if 0 < time_diff \<and> time_diff < 1000 then
              (let appended = jitter_samples st @
                     [\<lparr>js_timestamp = timestamp, js_jitter = time_diff, js_seq_num = seq_num\<rparr>]
               in st\<lparr>jitter_samples :=
                     (if length appended > 1000 then slice_from (- 500) appended else appended)\<rparr>)
            else st)
      else st\<lparr>jitter_samples := jitter_samples st @
                 [\<lparr>js_timestamp = timestamp, js_jitter = 0, js_seq_num = seq_num\<rparr>]\<rparr>)"

text \<open>
  \<^verbatim>\<open>_calculate_bitrate\<close>; \<open>current_time\<close> is the value that \<^verbatim>\<open>time.time()\<close> returns in
  the call. The cutoff is \<^verbatim>\<open>current_time - 30\<close>; it is left unrounded, since for the
  values that \<^verbatim>\<open>time.time()\<close> returns the difference is a double itself.
\<close>

definition recent :: "real \<Rightarrow> bitrate_sample list \<Rightarrow> bitrate_sample list" where
  "recent current_time samples =
     filter (\<lambda>s. bs_real_time s \<ge> current_time - 30) samples"

definition calculate_bitrate :: "real \<Rightarrow> real \<Rightarrow> int \<Rightarrow> statistics \<Rightarrow> statistics" where
  "calculate_bitrate current_time timestamp len st =
     st\<lparr>bitrate_samples :=
          recent current_time (bitrate_samples st @
            [\<lparr>bs_timestamp = timestamp, bs_bytes = len, bs_real_time = current_time\<rparr>])\<rparr>"

subsection \<open>Packet loss\<close>

text \<open>
  The \<^verbatim>\<open>for i in range(1, len(seq_numbers))\<close> loop of \<^verbatim>\<open>_calculate_packet_loss_metric\<close>,
  walking the adjacent pairs of the sorted list; it returns \<open>(gaps, total_expected)\<close>.
  \<open>seq_diff\<close> is the value of \<^verbatim>\<open>diff\<close> after the wraparound branch.
\<close>

definition seq_diff :: "int \<Rightarrow> int \<Rightarrow> int" where
  "seq_diff prev next =
     (let diff = next - prev
      in if diff > 32768 then 65536 - prev + next else diff)"

fun loss_loop :: "int list \<Rightarrow> int \<Rightarrow> int \<Rightarrow> int \<times> int" where
  "loss_loop (prev # next # rest) gaps total_expected =
     (let diff = seq_diff prev next
      in loss_loop (next # rest) (if diff > 1 then gaps + (diff - 1) else gaps)
           (total_expected + diff))"
| "loss_loop seq_numbers gaps total_expected = (gaps, total_expected)"

text \<open>
  \<^verbatim>\<open>min((gaps / total_expected) * 100, 100.0)\<close>: the quotient of the two integers is rounded
  to a double, then the product.
\<close>

definition loss_percent :: "int \<Rightarrow> int \<Rightarrow> real" where
  "loss_percent gaps total_expected =
     min (to_double (to_double (real_of_int gaps / real_of_int total_expected) * 100)) 100"

definition calculate_packet_loss_metric :: "statistics \<Rightarrow> real \<times> statistics" where
  "calculate_packet_loss_metric st =
     (if length (jitter_samples st) < 10 then (0, st)
      else
        (let seq_numbers = map js_seq_num (slice_from (- 100) (jitter_samples st))
         in if length seq_numbers < 2 then (0, st)
            else
              (case loss_loop (sort seq_numbers) 0 0 of
                 (gaps, total_expected) \<Rightarrow>
                   if total_expected > 0
                   then (loss_percent gaps total_expected, st\<lparr>lost_packets := gaps\<rparr>)
                   else (0, st))))"

section \<open>Packet processing\<close>

subsection \<open>The bounded packet queue\<close>

text \<open>
  \<^verbatim>\<open>queue.Queue(maxsize)\<close> of the Python standard library, as a list with the oldest
  element first. \<^verbatim>\<open>put_nowait\<close> raises \<^verbatim>\<open>queue.Full\<close> (\<open>None\<close>) when \<open>maxsize\<close> is
  positive and reached; \<^verbatim>\<open>get_nowait\<close> raises \<^verbatim>\<open>queue.Empty\<close> (\<open>None\<close>) on an empty
  queue. Neither ever waits.
\<close>

definition put_nowait :: "int \<Rightarrow> 'a \<Rightarrow> 'a list \<Rightarrow> 'a list option" where
  "put_nowait maxsize x q =
     (if maxsize > 0 \<and> int (length q) \<ge> maxsize then None else Some (q @ [x]))"

definition get_nowait :: "'a list \<Rightarrow> ('a \<times> 'a list) option" where
  "get_nowait q = (case q of [] \<Rightarrow> None | x # rest \<Rightarrow> Some (x, rest))"

text \<open>
  The \<^verbatim>\<open>try: put_nowait ... except queue.Full: ...\<close> block at the end of
  \<^verbatim>\<open>_process_packet\<close>. The inner handler catches \<^verbatim>\<open>queue.Empty\<close> only, so a second
  \<^verbatim>\<open>queue.Full\<close> would leave the block as an exception: the flag of the result.
\<close>

definition enqueue :: "int \<Rightarrow> 'a \<Rightarrow> 'a list \<Rightarrow> 'a list \<times> bool" where
  "enqueue maxsize x q =
     (case put_nowait maxsize x q of
        Some q' \<Rightarrow> (q', False)
      | None \<Rightarrow>
          (case get_nowait q of
             None \<Rightarrow> (q, False)
           | Some (oldest, q1) \<Rightarrow>
               (case put_nowait maxsize x q1 of
                  Some q2 \<Rightarrow> (q2, False)
                | None \<Rightarrow> (q1, True))))"

definition enqueue_all :: "int \<Rightarrow> 'a list \<Rightarrow> 'a list \<Rightarrow> 'a list" where
  "enqueue_all maxsize xs q = foldl (\<lambda>q x. fst (enqueue maxsize x q)) q xs"

subsection \<open>Dissected packets\<close>

text \<open>
  A packet is the dictionary that \<^verbatim>\<open>json.loads\<close> returned. What \<^verbatim>\<open>_process_packet\<close>
  reads from it is modelled by the outcome of each extraction step: a value, an exception
  that the step's own handler catches (\<open>Handled\<close>), or any other exception (\<open>Unhandled\<close>),
  which reaches the handler around the whole body.
\<close>

datatype 'a outcome = Value 'a | Handled | Unhandled

record packet =
  pkt_layers :: "bool option"
  pkt_frame :: "(int \<times> real \<times> int) outcome"
  pkt_ip :: "(string \<times> string) option"
  pkt_udp :: "(int \<times> int) outcome"
  pkt_rtp :: "(int \<times> int \<times> int) option option"

text \<open>
  \<open>pkt_layers\<close>: whether the \<^verbatim>\<open>layers\<close> dictionary is non-empty (\<open>None\<close>: reading it
  raises). \<open>pkt_frame\<close>: frame number, relative time and length, \<open>Handled\<close> being the
  \<^verbatim>\<open>ValueError\<close>, \<^verbatim>\<open>IndexError\<close> or \<^verbatim>\<open>TypeError\<close> of a conversion. \<open>pkt_ip\<close>: source and
  destination address (\<open>None\<close>: reading them raises; no handler of its own). \<open>pkt_udp\<close>:
  the two ports, \<open>Handled\<close> setting both to 0. \<open>pkt_rtp\<close>: \<open>None\<close> when
  \<^verbatim>\<open>layers.get('rtp', {})\<close> is empty, \<open>Some None\<close> when reading sequence number, RTP
  timestamp or payload type raises, \<open>Some (Some (seq_num, rtp_timestamp, payload_type))\<close>
  otherwise.
\<close>

record packet_data =
  pd_frame_number :: int
  pd_timestamp :: real
  pd_length :: int
  pd_src_ip :: string
  pd_dst_ip :: string
  pd_src_port :: int
  pd_dst_port :: int
  pd_is_video :: bool
  pd_rtp_info :: "(int \<times> int \<times> int) option option"

record capture =
  statistics :: statistics
  packet_queue :: "packet_data list"
  running :: bool
  capture_process :: bool
  analysis_thread :: bool
  json_parser :: parser

definition queue_maxsize :: int where
  "queue_maxsize = 10000"

text \<open>\<^verbatim>\<open>__init__\<close>: process and thread handles are \<^verbatim>\<open>None\<close> (\<open>False\<close>).\<close>

definition new_capture :: capture where
  "new_capture =
     \<lparr>statistics = initial_statistics, packet_queue = [], running = False,
      capture_process = False, analysis_thread = False,
      json_parser = new_parser default_max_buffer_size\<rparr>"

definition count_error :: "capture \<Rightarrow> capture" where
  "count_error c = c\<lparr>statistics := (statistics c)\<lparr>errors := errors (statistics c) + 1\<rparr>\<rparr>"

text \<open>
  \<^verbatim>\<open>_analyze_rtp_packet\<close>: the two range checks return without touching anything; only
  an exception is counted as an error.
\<close>

definition analyze_rtp_packet ::
  "real \<Rightarrow> (int \<times> int \<times> int) option \<Rightarrow> real \<Rightarrow> int \<Rightarrow> statistics \<Rightarrow> statistics" where
  "analyze_rtp_packet current_time rtp_info timestamp len st =
     (case rtp_info of
        None \<Rightarrow> st\<lparr>errors := errors st + 1\<rparr>
      | Some (seq_num, rtp_timestamp, payload_type) \<Rightarrow>
          if \<not> (0 \<le> seq_num \<and> seq_num \<le> 65535) then st
          else if \<not> (0 \<le> payload_type \<and> payload_type \<le> 127) then st
          else if payload_type \<in> set rtp_payload_types then
            calculate_bitrate current_time timestamp len (calculate_jitter timestamp seq_num st)
          else st)"

text \<open>
  \<^verbatim>\<open>_process_packet\<close>. \<open>current_time\<close> is the wall-clock time of the call. The local
  variable \<^verbatim>\<open>rtp_info\<close> is only assigned inside the branch of a video packet, so for any
  other packet building \<^verbatim>\<open>packet_data\<close> raises \<^verbatim>\<open>UnboundLocalError\<close>, which the
  handler around the body counts as an error; that packet is not queued.
\<close>

definition process_packet :: "real \<Rightarrow> packet \<Rightarrow> capture \<Rightarrow> capture" where
  "process_packet current_time pkt c =
     (case pkt_layers pkt of
        None \<Rightarrow> count_error c
      | Some False \<Rightarrow> c
      | Some True \<Rightarrow>
     (case pkt_frame pkt of
        Unhandled \<Rightarrow> count_error c
      | Handled \<Rightarrow> c
      | Value (frame_number, frame_time, frame_len) \<Rightarrow>
     if frame_len \<le> 0 \<or> frame_len > 65535 then c
     else
     (case pkt_ip pkt of
        None \<Rightarrow> count_error c
      | Some (src_ip, dst_ip) \<Rightarrow>
     (case pkt_udp pkt of
        Unhandled \<Rightarrow> count_error c
      | udp \<Rightarrow>
     (let (src_port, dst_port) = (case udp of Value ports \<Rightarrow> ports | _ \<Rightarrow> (0, 0));
          st1 = (statistics c)\<lparr>total_packets := total_packets (statistics c) + 1\<rparr>
      in if is_video_packet src_port dst_port then
           (let st2 = st1\<lparr>video_packets := video_packets st1 + 1\<rparr>;
                st3 = (case pkt_rtp pkt of
                         None \<Rightarrow> st2
                       | Some rtp_info \<Rightarrow>
                           analyze_rtp_packet current_time rtp_info frame_time frame_len
                             (st2\<lparr>rtp_packets := rtp_packets st2 + 1\<rparr>));
                packet_data =
                  \<lparr>pd_frame_number = frame_number, pd_timestamp = frame_time,
                   pd_length = frame_len, pd_src_ip = src_ip, pd_dst_ip = dst_ip,
                   pd_src_port = src_port, pd_dst_port = dst_port,
                   pd_is_video = is_video_packet src_port dst_port,
                   pd_rtp_info = pkt_rtp pkt\<rparr>
            in case enqueue queue_maxsize packet_data (packet_queue c) of
                 (q, raised) \<Rightarrow>
                   (if raised then count_error (c\<lparr>statistics := st3, packet_queue := q\<rparr>)
                    else c\<lparr>statistics := st3, packet_queue := q\<rparr>))
         else count_error (c\<lparr>statistics := st1\<rparr>))))))"

text \<open>
  The \<^verbatim>\<open>for packet in objects\<close> loop of \<^verbatim>\<open>_analyze_packets\<close>, each packet with the
  wall-clock time of its call.
\<close>

definition process_packets :: "(real \<times> packet) list \<Rightarrow> capture \<Rightarrow> capture" where
  "process_packets pkts c = foldl (\<lambda>c (current_time, pkt). process_packet current_time pkt c) c pkts"

section \<open>Starting and stopping a capture\<close>

text \<open>
  What the environment does to \<^verbatim>\<open>start_capture\<close>: a dependency check fails, or one of the
  steps raises (spawning the process, switching its output to non-blocking, starting the
  thread), or everything succeeds.
\<close>

datatype start_env = Deps_missing | Popen_raises | Fcntl_raises | Thread_raises | Starts

definition start_capture :: "start_env \<Rightarrow> real \<Rightarrow> capture \<Rightarrow> bool \<times> capture" where
  "start_capture env current_time c =
     (case env of
        Deps_missing \<Rightarrow> (False, c)
      | Popen_raises \<Rightarrow> (False, count_error c)
      | Fcntl_raises \<Rightarrow> (False, count_error (c\<lparr>capture_process := True\<rparr>))
      | Thread_raises \<Rightarrow>
          (False, count_error
             (c\<lparr>capture_process := True, running := True,
                statistics := (statistics c)\<lparr>start_time := Some current_time\<rparr>,
                analysis_thread := True\<rparr>))
      | Starts \<Rightarrow>
          (True, c\<lparr>capture_process := True, running := True,
                  statistics := (statistics c)\<lparr>start_time := Some current_time\<rparr>,
                  analysis_thread := True\<rparr>))"

text \<open>
  \<^verbatim>\<open>stop_capture\<close>: clears the flag and the two handles and removes the temporary files.
  It does not assign \<^verbatim>\<open>self.statistics\<close>.
\<close>

definition stop_capture :: "capture \<Rightarrow> capture" where
  "stop_capture c = c\<lparr>running := False, capture_process := False, analysis_thread := False\<rparr>"

section \<open>Well-formed record text\<close>

text \<open>
  The text the claims call a well-formed record, as far as the scanner can tell: an opening
  brace, then any mix of characters that are not a delimiter, quoted strings and nested
  records, then a closing brace. Inside a string a backslash escapes the character after
  it, and any character but a quote or a backslash stands for itself. Every JSON object
  has this shape (brackets, commas, colons, digits and blanks are not delimiters here).
\<close>

definition plain :: "char \<Rightarrow> bool" where
  "plain c \<longleftrightarrow> c \<noteq> backslash \<and> c \<noteq> dquote \<and> c \<noteq> lbrace \<and> c \<noteq> rbrace"

datatype str_char = Lit char | Esc char

datatype item = Chr char | Str "str_char list" | Obj "item list"

fun render_str_char :: "str_char \<Rightarrow> string" where
  "render_str_char (Lit c) = [c]"
| "render_str_char (Esc c) = [backslash, c]"

fun render :: "item \<Rightarrow> string" where
  "render (Chr c) = [c]"
| "render (Str cs) = dquote # concat (map render_str_char cs) @ [dquote]"
| "render (Obj items) = lbrace # concat (map render items) @ [rbrace]"

fun wf_str_char :: "str_char \<Rightarrow> bool" where
  "wf_str_char (Lit c) \<longleftrightarrow> c \<noteq> dquote \<and> c \<noteq> backslash"
| "wf_str_char (Esc c) \<longleftrightarrow> True"

fun wf_item :: "item \<Rightarrow> bool" where
  "wf_item (Chr c) \<longleftrightarrow> plain c"
| "wf_item (Str cs) \<longleftrightarrow> list_all wf_str_char cs"
| "wf_item (Obj items) \<longleftrightarrow> list_all wf_item items"





section \<open>Concrete runs used below\<close>

text \<open>A run of jitter updates, each with its capture timestamp and sequence number.\<close>

definition jitter_run :: "(real \<times> int) list \<Rightarrow> statistics \<Rightarrow> statistics" where
  "jitter_run events st = foldl (\<lambda>st (t, s). calculate_jitter t s st) st events"

text \<open>
  Four samples 250 ms apart with the sequence numbers 10, 11, 13, 14. The timestamps of
  the runs here are doubles, and so are their differences.
\<close>

definition four_samples :: statistics where
  "four_samples =
     jitter_run [(0.25, 10), (0.5, 11), (0.75, 13), (1, 14)] initial_statistics"

text \<open>
  Ten samples 250 ms apart whose sequence numbers run through the 16-bit wrap without a
  gap: 65531 to 65535, then 0 to 4.
\<close>

definition wrapped_run :: statistics where
  "wrapped_run =
     jitter_run [(0.25, 65531), (0.5, 65532), (0.75, 65533), (1, 65534), (1.25, 65535),
                 (1.5, 0), (1.75, 1), (2, 2), (2.25, 3), (2.5, 4)] initial_statistics"

text \<open>
  The doubles that \<^verbatim>\<open>float\<close> makes of the decimals 1.05, 2.2, 0.400895595 and 1.400895595.
\<close>

definition double_1_05 :: real where
  "double_1_05 = to_double 1.05"

definition double_2_2 :: real where
  "double_2_2 = to_double 2.2"

definition double_0_400895595 :: real where
  "double_0_400895595 = to_double 0.400895595"

definition double_1_400895595 :: real where
  "double_1_400895595 = to_double 1.400895595"

text \<open>A sample list at the cap of 1000 entries, its samples 250 ms apart.\<close>

definition full_samples :: "jitter_sample list" where
  "full_samples =
     map (\<lambda>k. \<lparr>js_timestamp = real k / 4, js_jitter = 250, js_seq_num = int k\<rparr>) [0..<1000]"

text \<open>
  Three dissected packets on the RTSP port 554 with payload type 96: a well-formed one, one
  with frame length 0, one with RTP sequence number 70000.
\<close>

definition good_packet :: packet where
  "good_packet =
     \<lparr>pkt_layers = Some True, pkt_frame = Value (1, 0.5, 1200),
      pkt_ip = Some (''10.0.0.1'', ''10.0.0.2''), pkt_udp = Value (554, 40000),
      pkt_rtp = Some (Some (5, 1000, 96))\<rparr>"

definition bad_frame_packet :: packet where
  "bad_frame_packet = good_packet\<lparr>pkt_frame := Value (1, 0.5, 0)\<rparr>"

definition bad_seq_packet :: packet where
  "bad_seq_packet = good_packet\<lparr>pkt_rtp := Some (Some (70000, 1000, 96))\<rparr>"

section \<open>Evaluation and list facts\<close>

lemmas scan_eval =
  scan.simps feed_def truncate_buffer_def new_parser_def slice_def slice_from_def
  lbrace_def rbrace_def dquote_def backslash_def default_max_buffer_size_def

lemma slice_from_neg:
  assumes "k < 0"
  shows "slice_from k xs = drop (length xs - nat (- k)) xs"
proof -
  from assms have "nat (int (length xs) + k) = length xs - nat (- k)"
    by arith
  with assms show ?thesis
    by (simp add: slice_from_def)
qed

section \<open>The doubles at some values\<close>

text \<open>
  Where difference and product are doubles themselves, nothing is rounded: a step of a
  quarter of a second is 250 ms.
\<close>

lemma to_double_quarter: "to_double (1 / 4) = 1 / 4"
  by code_simp

lemma to_double_250: "to_double 250 = 250"
  by code_simp

lemma quarter_step:
  assumes "t - l = 1 / 4"
  shows "time_diff_ms t l = 250"
proof -
  have "time_diff_ms t l = to_double (to_double (1 / 4) * 1000)"
    unfolding time_diff_ms_def assms ..
  also have "\<dots> = to_double 250"
    unfolding to_double_quarter by simp
  finally show ?thesis
    by (simp only: to_double_250)
qed

text \<open>
  After the sample at 1.0 the sample at 1.05 has the jitter that Python prints as
  \<^verbatim>\<open>50.00000000000004\<close>, and the step from 1.05 to 2.2 is \<^verbatim>\<open>1150.0000000000002\<close> ms.
\<close>

lemma double_values:
  "double_1_05 = 4728779608739021 / 4503599627370496"
  "double_2_2 = 2476979795053773 / 1125899906842624"
  by code_simp+

lemma ms_1_to_105:
  "time_diff_ms double_1_05 1 = 3518437208883203 / 70368744177664"
  by code_simp

lemma ms_105_to_22:
  "time_diff_ms double_2_2 double_1_05 = 5057753487769601 / 4398046511104"
  by code_simp

text \<open>
  Between the doubles of 0.400895595 and 1.400895595 the exact difference is below one
  second, but it rounds to 1.0, and the program's product is exactly 1000.
\<close>

lemma ms_at_the_bound:
  "(double_1_400895595 - double_0_400895595) * 1000 < 1000"
  "time_diff_ms double_1_400895595 double_0_400895595 = 1000"
  by code_simp+

lemma loss_percent_quarter: "loss_percent 1 4 = 25"
  by code_simp

lemma loss_percent_wrapped:
  "loss_percent 131062 131071 = 1759097807564793 / 17592186044416"
  by code_simp

section \<open>The bounded queue\<close>

lemma enqueue_below_capacity:
  "int (length q) < maxsize \<Longrightarrow> enqueue maxsize x q = (q @ [x], False)"
  by (auto simp: enqueue_def put_nowait_def get_nowait_def)

lemma enqueue_at_capacity:
  "0 < maxsize \<Longrightarrow> int (length q) = maxsize \<Longrightarrow> enqueue maxsize x q = (tl q @ [x], False)"
  by (cases q) (auto simp: enqueue_def put_nowait_def get_nowait_def)

lemma enqueue_never_raises:
  "0 < maxsize \<Longrightarrow> int (length q) \<le> maxsize \<Longrightarrow> snd (enqueue maxsize x q) = False"
  by (cases q) (auto simp: enqueue_def put_nowait_def get_nowait_def)

lemma enqueue_length:
  "0 < maxsize \<Longrightarrow> int (length q) \<le> maxsize \<Longrightarrow>
   int (length (fst (enqueue maxsize x q))) \<le> maxsize"
  by (cases q) (auto simp: enqueue_def put_nowait_def get_nowait_def)

text \<open>
  Claim C9. With capacity 3, enqueueing \<open>a\<close>, \<open>b\<close>, \<open>c\<close>, \<open>d\<close> in this order into the empty
  queue, with no dequeue in between, leaves exactly \<open>[b, c, d]\<close>; an enqueue into a queue
  that holds three elements drops the oldest one, appends the new one and raises nothing.
  Both operations are the non-waiting ones, so the producer is never blocked.
\<close>

theorem enqueue_capacity_three:
  "enqueue_all 3 [a, b, c, d] [] = [b, c, d] \<and>
   enqueue 3 x [p, q, r] = ([q, r, x], False)"
  by (simp add: enqueue_all_def enqueue_def put_nowait_def get_nowait_def)

section \<open>The two port classifiers\<close>

text \<open>
  Claim C10, as stated, fails: for source port 40000 and destination port 0 the original
  classifier says video and the enhanced one does not.
\<close>

theorem classifiers_differ_counterexample:
  "is_video_packet_original 40000 0 \<and> \<not> is_video_packet 40000 0"
  by (simp add: is_video_packet_original_def is_video_packet_def video_ports_def)

text \<open>
  Claim C10, amended. The original verdict is the enhanced verdict or a port above 32767:
  the two classifiers agree on every pair of ports that are both at most 32767 and on
  every pair the enhanced classifier accepts, and on a pair with a port above 32767 the
  original always says video.
\<close>

theorem classifier_original_vs_enhanced:
  "is_video_packet_original src_port dst_port \<longleftrightarrow>
     is_video_packet src_port dst_port \<or> src_port > 32767 \<or> dst_port > 32767"
  by (auto simp: is_video_packet_original_def is_video_packet_def video_ports_def)

section \<open>Packet loss\<close>

lemma four_samples_seq_numbers:
  "map js_seq_num (jitter_samples four_samples) = [10, 11, 13, 14]"
  by (simp add: four_samples_def jitter_run_def calculate_jitter_def initial_statistics_def
      quarter_step)

text \<open>
  Claim C4, as stated, fails: with exactly the four sequence numbers 10, 11, 13, 14 in the
  window, \<^verbatim>\<open>_calculate_packet_loss_metric\<close> returns 0, not 25.
\<close>

theorem packet_loss_four_samples_counterexample:
  "map js_seq_num (jitter_samples four_samples) = [10, 11, 13, 14] \<and>
   fst (calculate_packet_loss_metric four_samples) = 0 \<and>
   fst (calculate_packet_loss_metric four_samples) \<noteq> 25"
  by (simp add: four_samples_def jitter_run_def calculate_jitter_def initial_statistics_def
      calculate_packet_loss_metric_def quarter_step)

text \<open>
  Claim C4, amended. When the sequence numbers of the jitter samples are exactly
  10, 11, 13, 14, the computation returns 0 and leaves the statistics as they are, since
  fewer than ten samples exist. The sort and the loop by themselves give what the claim
  says: the sorted list is \<open>[10, 11, 13, 14]\<close>, the adjacent differences are \<open>[1, 2, 1]\<close>,
  \<open>total_expected\<close> is 4, \<open>gaps\<close> is 1, and the loss formula gives 25 for them.
\<close>

theorem packet_loss_four_samples:
  assumes "map js_seq_num (jitter_samples st) = [10, 11, 13, 14]"
  shows "calculate_packet_loss_metric st = (0, st) \<and>
         sort (map js_seq_num (jitter_samples st)) = [10, 11, 13, 14] \<and>
         map2 seq_diff [10, 11, 13] [11, 13, 14] = [1, 2, 1] \<and>
         loss_loop (sort (map js_seq_num (jitter_samples st))) 0 0 = (1, 4) \<and>
         loss_percent 1 4 = 25"
proof -
  from assms have "length (map js_seq_num (jitter_samples st)) = 4"
    by simp
  then have "calculate_packet_loss_metric st = (0, st)"
    by (simp add: calculate_packet_loss_metric_def)
  moreover have "map2 seq_diff [10, 11, 13] [11, 13, 14] = [1, 2, 1]"
    by (simp add: seq_diff_def)
  moreover have "loss_loop [10, 11, 13, 14] 0 0 = (1, 4)"
    by (simp add: seq_diff_def)
  moreover have "loss_percent 1 4 = 25"
    by (rule loss_percent_quarter)
  ultimately show ?thesis
    using assms by simp
qed

theorem packet_loss_four_samples_witness:
  "map js_seq_num (jitter_samples four_samples) = [10, 11, 13, 14] \<and>
   calculate_packet_loss_metric four_samples = (0, four_samples) \<and>
   loss_loop (sort (map js_seq_num (jitter_samples four_samples))) 0 0 = (1, 4)"
  using packet_loss_four_samples [OF four_samples_seq_numbers] four_samples_seq_numbers
  by simp

text \<open>
  Claim C3 does not hold of the code. The claim's own numbers, sorted, are
  \<open>[1, 2, 65534, 65535]\<close>; the difference 65532 between 2 and 65534 exceeds 32768 and is
  replaced by \<open>65536 - 2 + 65534 = 131068\<close>, so the loop counts 131070 expected packets and
  131067 gaps instead of a contiguous run. Below ten samples the function returns 0 before
  it reaches the loop, so the run that shows the reported value has ten samples, 65531 to
  65535 followed by 0 to 4, with no packet missing: the reported loss is above 99.99
  percent and \<open>lost_packets\<close> is set to 131062.
\<close>

theorem packet_loss_wraparound_spurious:
  "sort [65534, 65535, 1, 2 :: int] = [1, 2, 65534, 65535] \<and>
   seq_diff 2 65534 = 131068 \<and>
   loss_loop (sort [65534, 65535, 1, 2]) 0 0 = (131067, 131070) \<and>
   map js_seq_num (jitter_samples wrapped_run) =
     [65531, 65532, 65533, 65534, 65535, 0, 1, 2, 3, 4] \<and>
   fst (calculate_packet_loss_metric wrapped_run) = loss_percent 131062 131071 \<and>
   loss_percent 131062 131071 > 99.99 \<and>
   lost_packets (snd (calculate_packet_loss_metric wrapped_run)) = 131062"
  by (simp add: wrapped_run_def jitter_run_def calculate_jitter_def initial_statistics_def
      calculate_packet_loss_metric_def slice_from_def seq_diff_def quarter_step
      loss_percent_wrapped)

section \<open>Jitter and bitrate samples\<close>

lemma calculate_jitter_length:
  "length (jitter_samples st) \<le> 1000 \<Longrightarrow>
   length (jitter_samples (calculate_jitter t s st)) \<le> 1000"
  by (auto simp: calculate_jitter_def Let_def slice_from_neg)

text \<open>
  Every list of jitter samples that updates can build from the empty one has at most
  1000 entries: the hypothesis of the theorem for C5 holds in every reachable state.
\<close>

lemma jitter_run_length:
  "length (jitter_samples st) \<le> 1000 \<Longrightarrow>
   length (jitter_samples (jitter_run events st)) \<le> 1000"
  unfolding jitter_run_def
  by (induction events arbitrary: st) (auto simp: calculate_jitter_length split: prod.splits)

lemma jitter_run_reachable_length:
  "length (jitter_samples (jitter_run events initial_statistics)) \<le> 1000"
  by (rule jitter_run_length) (simp add: initial_statistics_def)

text \<open>
  Claim C5. A jitter update with timestamp \<open>t\<close> and sequence number \<open>s\<close>, on a sample list
  of at most 1000 entries (every reachable one): with no prior sample it stores
  \<open>{t, 0, s}\<close>; otherwise, with \<open>d\<close> the double that \<open>(t - last.timestamp) * 1000\<close>
  evaluates to, it appends \<open>{t, d, s}\<close> exactly when \<open>0 < d < 1000\<close> and changes nothing
  otherwise; when the appended list has more than 1000 entries it is cut to its last 500;
  the list never has more than 1000 entries afterwards, and no other field of the
  statistics changes.
\<close>

theorem calculate_jitter_cases:
  assumes "length (jitter_samples st) \<le> 1000"
  shows "(jitter_samples st = [] \<longrightarrow>
            jitter_samples (calculate_jitter t s st) =
              [\<lparr>js_timestamp = t, js_jitter = 0, js_seq_num = s\<rparr>]) \<and>
         (jitter_samples st \<noteq> [] \<longrightarrow>
            (let d = time_diff_ms t (js_timestamp (last (jitter_samples st)));
                 appended = jitter_samples st @
                   [\<lparr>js_timestamp = t, js_jitter = d, js_seq_num = s\<rparr>]
             in (0 < d \<and> d < 1000 \<longrightarrow>
                   jitter_samples (calculate_jitter t s st) =
                     (if length appended > 1000 then drop (length appended - 500) appended
                      else appended)) \<and>
                (\<not> (0 < d \<and> d < 1000) \<longrightarrow> calculate_jitter t s st = st))) \<and>
         length (jitter_samples (calculate_jitter t s st)) \<le> 1000 \<and>
         calculate_jitter t s st =
           st\<lparr>jitter_samples := jitter_samples (calculate_jitter t s st)\<rparr>"
  using assms
  by (auto simp: calculate_jitter_def Let_def slice_from_neg)

text \<open>
  The theorem at five inputs, all of them doubles: the first sample, at 1.0; a second
  sample at 1.05, whose jitter is the double next above 50; a sample at 2.2, 1150 ms after
  the last one, which is dropped; a sample whose rounded distance is exactly 1000 ms, which
  is dropped although the exact distance is below; and an accepted sample on a list of 1000
  entries, which leaves the last 500.
\<close>

theorem calculate_jitter_cases_witness:
  "jitter_samples (calculate_jitter 1 7 initial_statistics) =
     [\<lparr>js_timestamp = 1, js_jitter = 0, js_seq_num = 7\<rparr>] \<and>
   jitter_samples (calculate_jitter double_1_05 8 (calculate_jitter 1 7 initial_statistics)) =
     [\<lparr>js_timestamp = 1, js_jitter = 0, js_seq_num = 7\<rparr>,
      \<lparr>js_timestamp = double_1_05, js_jitter = 3518437208883203 / 70368744177664,
       js_seq_num = 8\<rparr>] \<and>
   calculate_jitter double_2_2 9
     (calculate_jitter double_1_05 8 (calculate_jitter 1 7 initial_statistics)) =
     calculate_jitter double_1_05 8 (calculate_jitter 1 7 initial_statistics) \<and>
   calculate_jitter double_1_400895595 2
     (calculate_jitter double_0_400895595 1 initial_statistics) =
     calculate_jitter double_0_400895595 1 initial_statistics \<and>
   length (jitter_samples
     (calculate_jitter 250 1000 (initial_statistics\<lparr>jitter_samples := full_samples\<rparr>))) = 500"
proof -
  let ?one = "calculate_jitter 1 7 initial_statistics"
  let ?two = "calculate_jitter double_1_05 8 ?one"
  let ?low = "calculate_jitter double_0_400895595 1 initial_statistics"
  have first: "jitter_samples ?one = [\<lparr>js_timestamp = 1, js_jitter = 0, js_seq_num = 7\<rparr>]"
    using calculate_jitter_cases [of initial_statistics 1 7]
    by (simp add: initial_statistics_def)
  have second: "jitter_samples ?two =
      [\<lparr>js_timestamp = 1, js_jitter = 0, js_seq_num = 7\<rparr>,
       \<lparr>js_timestamp = double_1_05, js_jitter = 3518437208883203 / 70368744177664,
        js_seq_num = 8\<rparr>]"
    using calculate_jitter_cases [of ?one double_1_05 8]
    by (simp add: first Let_def ms_1_to_105)
  have third: "calculate_jitter double_2_2 9 ?two = ?two"
    using calculate_jitter_cases [of ?two double_2_2 9]
    by (simp add: second Let_def ms_105_to_22)
  have low: "jitter_samples ?low =
      [\<lparr>js_timestamp = double_0_400895595, js_jitter = 0, js_seq_num = 1\<rparr>]"
    using calculate_jitter_cases [of initial_statistics double_0_400895595 1]
    by (simp add: initial_statistics_def)
  have bound: "calculate_jitter double_1_400895595 2 ?low = ?low"
    using calculate_jitter_cases [of ?low double_1_400895595 2]
    by (simp add: low Let_def ms_at_the_bound(2))
  have trimmed: "length (jitter_samples
      (calculate_jitter 250 1000 (initial_statistics\<lparr>jitter_samples := full_samples\<rparr>))) = 500"
    using calculate_jitter_cases [of "initial_statistics\<lparr>jitter_samples := full_samples\<rparr>" 250 1000]
    by (simp add: full_samples_def Let_def last_map quarter_step)
  from first second third bound trimmed show ?thesis
    by blast
qed

text \<open>
  Claim C2, as stated, fails: after an update at wall-clock time 0 and one at time 20, the
  first sample is still retained, 20 seconds old.
\<close>

theorem bitrate_window_10s_counterexample:
  "bitrate_samples (calculate_bitrate 20 1 100 (calculate_bitrate 0 0 100 initial_statistics)) =
     [\<lparr>bs_timestamp = 0, bs_bytes = 100, bs_real_time = 0\<rparr>,
      \<lparr>bs_timestamp = 1, bs_bytes = 100, bs_real_time = 20\<rparr>] \<and>
   \<not> (20 - bs_real_time \<lparr>bs_timestamp = 0, bs_bytes = 100, bs_real_time = 0\<rparr> \<le> (10::real))"
  by (simp add: calculate_bitrate_def recent_def initial_statistics_def)

text \<open>
  Claim C2, amended. After every bitrate update, whatever the state before it, every
  retained sample has wall-clock age at most 30 seconds (the cutoff of
  \<^verbatim>\<open>_calculate_bitrate\<close>; the 10-second window is applied when the bitrate metric is read),
  applying the eviction a second time removes nothing, and the sample just inserted is
  the last one retained.
\<close>

theorem calculate_bitrate_window_30s:
  "(\<forall>s \<in> set (bitrate_samples (calculate_bitrate now t len st)). now - bs_real_time s \<le> 30) \<and>
   recent now (bitrate_samples (calculate_bitrate now t len st)) =
     bitrate_samples (calculate_bitrate now t len st) \<and>
   last (bitrate_samples (calculate_bitrate now t len st)) =
     \<lparr>bs_timestamp = t, bs_bytes = len, bs_real_time = now\<rparr>"
  by (auto simp: calculate_bitrate_def recent_def)

theorem calculate_bitrate_window_30s_witness:
  "20 - bs_real_time \<lparr>bs_timestamp = 0, bs_bytes = 100, bs_real_time = 0\<rparr> \<le> (30::real) \<and>
   20 - bs_real_time \<lparr>bs_timestamp = 1, bs_bytes = 100, bs_real_time = 20\<rparr> \<le> (30::real) \<and>
   bitrate_samples (calculate_bitrate 20 1 100 (calculate_bitrate 0 0 100 initial_statistics)) =
     [\<lparr>bs_timestamp = 0, bs_bytes = 100, bs_real_time = 0\<rparr>,
      \<lparr>bs_timestamp = 1, bs_bytes = 100, bs_real_time = 20\<rparr>]"
  using calculate_bitrate_window_30s
    [of 20 1 100 "calculate_bitrate 0 0 100 initial_statistics"]
  by (simp add: calculate_bitrate_def recent_def initial_statistics_def)

section \<open>Out-of-range fields\<close>

lemma analyze_rtp_out_of_range:
  "seq_num < 0 \<or> seq_num > 65535 \<or> payload_type < 0 \<or> payload_type > 127 \<Longrightarrow>
   analyze_rtp_packet now (Some (seq_num, rtp_ts, payload_type)) t len st = st"
  by (auto simp: analyze_rtp_packet_def)

lemma process_packet_bad_frame:
  assumes "pkt_layers pkt = Some True" "pkt_frame pkt = Value (n, t, len)"
    "len < 1 \<or> len > 65535"
  shows "process_packet now pkt c = c"
  using assms by (auto simp: process_packet_def)

lemma process_packet_bad_rtp:
  assumes "pkt_layers pkt = Some True" "pkt_frame pkt = Value (n, t, len)"
    "1 \<le> len" "len \<le> 65535"
    "pkt_ip pkt = Some (src_ip, dst_ip)" "pkt_udp pkt = Value (src_port, dst_port)"
    "is_video_packet src_port dst_port"
    "pkt_rtp pkt = Some (Some (seq_num, rtp_ts, payload_type))"
    "seq_num < 0 \<or> seq_num > 65535 \<or> payload_type < 0 \<or> payload_type > 127"
    "int (length (packet_queue c)) \<le> queue_maxsize"
  shows "process_packet now pkt c =
        c\<lparr>statistics := (statistics c)
             \<lparr>total_packets := total_packets (statistics c) + 1,
              video_packets := video_packets (statistics c) + 1,
              rtp_packets := rtp_packets (statistics c) + 1\<rparr>,
          packet_queue := fst (enqueue queue_maxsize
             \<lparr>pd_frame_number = n, pd_timestamp = t, pd_length = len, pd_src_ip = src_ip,
              pd_dst_ip = dst_ip, pd_src_port = src_port, pd_dst_port = dst_port,
              pd_is_video = True, pd_rtp_info = Some (Some (seq_num, rtp_ts, payload_type))\<rparr>
             (packet_queue c))\<rparr>"
proof -
  have no_raise: "snd (enqueue queue_maxsize x (packet_queue c)) = False" for x
    using assms(10) by (intro enqueue_never_raises) (simp_all add: queue_maxsize_def)
  have skipped: "analyze_rtp_packet now (Some (seq_num, rtp_ts, payload_type)) t len st = st" for st
    using assms(9) by (intro analyze_rtp_out_of_range) simp
  show ?thesis
    using assms no_raise skipped
    by (simp add: process_packet_def Let_def case_prod_unfold)
qed

text \<open>
  Claim C7, as stated, fails. A packet with frame length 0 leaves the error counter at 0.
  A packet with RTP sequence number 70000 is not discarded: it is counted and queued, and
  the error counter stays at 0 as well.
\<close>

theorem out_of_range_no_error_counterexample:
  "errors (statistics (process_packet 0 bad_frame_packet new_capture)) = 0 \<and>
   errors (statistics (process_packet 0 bad_seq_packet new_capture)) = 0 \<and>
   total_packets (statistics (process_packet 0 bad_seq_packet new_capture)) = 1 \<and>
   map pd_rtp_info (packet_queue (process_packet 0 bad_seq_packet new_capture)) =
     [Some (Some (70000, 1000, 96))]"
  by (simp add: process_packet_def bad_frame_packet_def bad_seq_packet_def good_packet_def
      new_capture_def initial_statistics_def is_video_packet_def video_ports_def
      analyze_rtp_packet_def enqueue_def put_nowait_def queue_maxsize_def)

text \<open>
  Claim C7, amended. A packet whose frame length is outside 1..65535 is discarded: the
  capture state, with every counter and the queue, is left as it was, the error counter is
  not incremented, and the packets after it are processed as if it had not arrived. A
  packet on a video port whose RTP sequence number is outside 0..65535 or whose payload
  type is outside 0..127 is not discarded: it is counted as a total, video and RTP packet
  and put on the queue; only the jitter and bitrate updates are skipped, and the error
  counter is not incremented.
\<close>

theorem out_of_range_packets:
  "(pkt_layers pkt = Some True \<and> pkt_frame pkt = Value (n, t, len) \<and>
    (len < 1 \<or> len > 65535) \<longrightarrow>
      process_packet now pkt c = c \<and>
      process_packets ((now, pkt) # rest) c = process_packets rest c) \<and>
   (pkt_layers pkt = Some True \<and> pkt_frame pkt = Value (n, t, len) \<and>
    1 \<le> len \<and> len \<le> 65535 \<and>
    pkt_ip pkt = Some (src_ip, dst_ip) \<and> pkt_udp pkt = Value (src_port, dst_port) \<and>
    is_video_packet src_port dst_port \<and>
    pkt_rtp pkt = Some (Some (seq_num, rtp_ts, payload_type)) \<and>
    (seq_num < 0 \<or> seq_num > 65535 \<or> payload_type < 0 \<or> payload_type > 127) \<and>
    int (length (packet_queue c)) \<le> queue_maxsize \<longrightarrow>
      process_packet now pkt c =
        c\<lparr>statistics := (statistics c)
             \<lparr>total_packets := total_packets (statistics c) + 1,
              video_packets := video_packets (statistics c) + 1,
              rtp_packets := rtp_packets (statistics c) + 1\<rparr>,
          packet_queue := fst (enqueue queue_maxsize
             \<lparr>pd_frame_number = n, pd_timestamp = t, pd_length = len, pd_src_ip = src_ip,
              pd_dst_ip = dst_ip, pd_src_port = src_port, pd_dst_port = dst_port,
              pd_is_video = True, pd_rtp_info = Some (Some (seq_num, rtp_ts, payload_type))\<rparr>
             (packet_queue c))\<rparr>)"
proof (intro conjI impI; (elim conjE)?)
  assume "pkt_layers pkt = Some True" "pkt_frame pkt = Value (n, t, len)"
    "len < 1 \<or> len > 65535"
  then show "process_packet now pkt c = c"
    by (rule process_packet_bad_frame)
  then show "process_packets ((now, pkt) # rest) c = process_packets rest c"
    by (simp add: process_packets_def)
next
  assume "pkt_layers pkt = Some True" "pkt_frame pkt = Value (n, t, len)"
    "1 \<le> len" "len \<le> 65535"
    "pkt_ip pkt = Some (src_ip, dst_ip)" "pkt_udp pkt = Value (src_port, dst_port)"
    "is_video_packet src_port dst_port"
    "pkt_rtp pkt = Some (Some (seq_num, rtp_ts, payload_type))"
    "seq_num < 0 \<or> seq_num > 65535 \<or> payload_type < 0 \<or> payload_type > 127"
    "int (length (packet_queue c)) \<le> queue_maxsize"
  then show "process_packet now pkt c =
        c\<lparr>statistics := (statistics c)
             \<lparr>total_packets := total_packets (statistics c) + 1,
              video_packets := video_packets (statistics c) + 1,
              rtp_packets := rtp_packets (statistics c) + 1\<rparr>,
          packet_queue := fst (enqueue queue_maxsize
             \<lparr>pd_frame_number = n, pd_timestamp = t, pd_length = len, pd_src_ip = src_ip,
              pd_dst_ip = dst_ip, pd_src_port = src_port, pd_dst_port = dst_port,
              pd_is_video = True, pd_rtp_info = Some (Some (seq_num, rtp_ts, payload_type))\<rparr>
             (packet_queue c))\<rparr>"
    by (rule process_packet_bad_rtp)
qed

theorem out_of_range_packets_witness:
  "process_packet 0 bad_frame_packet new_capture = new_capture \<and>
   process_packets [(0, bad_frame_packet), (1, good_packet)] new_capture =
     process_packets [(1, good_packet)] new_capture \<and>
   statistics (process_packet 0 bad_seq_packet new_capture) =
     initial_statistics\<lparr>total_packets := 1, video_packets := 1, rtp_packets := 1\<rparr> \<and>
   length (packet_queue (process_packet 0 bad_seq_packet new_capture)) = 1"
proof -
  have frame: "process_packet 0 bad_frame_packet new_capture = new_capture \<and>
      process_packets [(0, bad_frame_packet), (1, good_packet)] new_capture =
        process_packets [(1, good_packet)] new_capture"
    using out_of_range_packets
      [where pkt = bad_frame_packet and n = 1 and t = "0.5" and len = 0 and now = 0
         and c = new_capture and rest = "[(1, good_packet)]"]
    by (simp add: bad_frame_packet_def good_packet_def)
  have rtp: "statistics (process_packet 0 bad_seq_packet new_capture) =
        initial_statistics\<lparr>total_packets := 1, video_packets := 1, rtp_packets := 1\<rparr> \<and>
      length (packet_queue (process_packet 0 bad_seq_packet new_capture)) = 1"
    using out_of_range_packets
      [where pkt = bad_seq_packet and n = 1 and t = "0.5" and len = 1200 and now = 0
         and c = new_capture and src_ip = "''10.0.0.1''" and dst_ip = "''10.0.0.2''"
         and src_port = 554 and dst_port = 40000 and seq_num = 70000 and rtp_ts = 1000
         and payload_type = 96]
    by (simp add: bad_seq_packet_def good_packet_def new_capture_def initial_statistics_def
        is_video_packet_def video_ports_def queue_maxsize_def enqueue_def put_nowait_def)
  from frame rtp show ?thesis
    by blast
qed

section \<open>Stopping and restarting\<close>

text \<open>
  Claim C8, as stated, fails: start, one packet, stop, start again; the statistics of the
  second session still count the packet of the first.
\<close>

theorem restart_keeps_statistics_counterexample:
  "total_packets (statistics (snd (start_capture Starts 200 (stop_capture
     (process_packet 101 good_packet (snd (start_capture Starts 100 new_capture))))))) = 1 \<and>
   total_packets initial_statistics = 0"
  by (simp add: start_capture_def stop_capture_def process_packet_def good_packet_def
      new_capture_def initial_statistics_def is_video_packet_def video_ports_def
      analyze_rtp_packet_def rtp_payload_types_def calculate_jitter_def calculate_bitrate_def
      recent_def enqueue_def put_nowait_def queue_maxsize_def)

text \<open>
  Claim C8, amended. Stopping a capture leaves the statistics as they are, and starting it
  again overwrites the start time only: every counter and every sample list of the earlier
  session is carried into the new one. When the start fails, the start time is set or not,
  the error counter is or is not incremented, and the rest is carried over all the same.
  The creation state is that of a newly constructed capture object.
\<close>

theorem restart_statistics:
  "statistics (stop_capture c) = statistics c \<and>
   statistics (snd (start_capture Starts now (stop_capture c))) =
     (statistics c)\<lparr>start_time := Some now\<rparr> \<and>
   (let st = statistics (snd (start_capture env now (stop_capture c)))
    in total_packets st = total_packets (statistics c) \<and>
       video_packets st = video_packets (statistics c) \<and>
       rtp_packets st = rtp_packets (statistics c) \<and>
       lost_packets st = lost_packets (statistics c) \<and>
       jitter_samples st = jitter_samples (statistics c) \<and>
       bitrate_samples st = bitrate_samples (statistics c) \<and>
       errors st \<ge> errors (statistics c)) \<and>
   statistics new_capture = initial_statistics"
  by (cases env)
    (simp_all add: stop_capture_def start_capture_def count_error_def new_capture_def)

section \<open>The scanner, step by step\<close>


lemma scan_escaped:
  "i < length buf \<Longrightarrow>
   scan loads buf i sp bc ins True objs = scan loads buf (i + 1) sp bc ins False objs"
  by (subst scan.simps) simp

lemma scan_backslash:
  "i < length buf \<Longrightarrow> buf ! i = backslash \<Longrightarrow>
   scan loads buf i sp bc ins False objs = scan loads buf (i + 1) sp bc ins True objs"
  by (subst scan.simps) simp

lemma scan_dquote:
  "i < length buf \<Longrightarrow> buf ! i = dquote \<Longrightarrow>
   scan loads buf i sp bc ins False objs = scan loads buf (i + 1) sp bc (\<not> ins) False objs"
  by (subst scan.simps) (simp add: dquote_def backslash_def)

lemma scan_in_string:
  "i < length buf \<Longrightarrow> buf ! i \<noteq> backslash \<Longrightarrow> buf ! i \<noteq> dquote \<Longrightarrow>
   scan loads buf i sp bc True False objs = scan loads buf (i + 1) sp bc True False objs"
  by (subst scan.simps) simp

lemma scan_plain:
  "i < length buf \<Longrightarrow> plain (buf ! i) \<Longrightarrow>
   scan loads buf i sp bc ins False objs = scan loads buf (i + 1) sp bc ins False objs"
  by (subst scan.simps) (simp add: plain_def)

lemma scan_lbrace:
  "i < length buf \<Longrightarrow> buf ! i = lbrace \<Longrightarrow>
   scan loads buf i sp bc False False objs =
     scan loads buf (i + 1) (if bc = 0 then i else sp) (bc + 1) False False objs"
  by (subst scan.simps) (simp add: lbrace_def dquote_def backslash_def)

lemma scan_rbrace_inner:
  "i < length buf \<Longrightarrow> buf ! i = rbrace \<Longrightarrow> bc \<noteq> 1 \<Longrightarrow>
   scan loads buf i sp bc False False objs = scan loads buf (i + 1) sp (bc - 1) False False objs"
  by (subst scan.simps) (simp add: rbrace_def lbrace_def dquote_def backslash_def)


lemma scan_rbrace_raises:
  "i < length buf \<Longrightarrow> buf ! i = rbrace \<Longrightarrow> loads (slice sp (i + 1) buf) = Raised \<Longrightarrow>
   scan loads buf i sp 1 False False objs = (Raises, buf, 0, False, False)"
  by (subst scan.simps) (simp add: rbrace_def lbrace_def dquote_def backslash_def)


section \<open>The scanner on well-formed text\<close>

text \<open>
  A piece of text is passed over when, wherever it stands in the buffer, the loop started at
  its first character arrives behind its last one with all its variables as they were.
\<close>

lemma skip_concat:
  assumes "\<And>x pre post. x \<in> set xs \<Longrightarrow>
      scan loads (pre @ f x @ post) (length pre) sp bc ins esc objs =
      scan loads (pre @ f x @ post) (length pre + length (f x)) sp bc ins esc objs"
  shows "scan loads (pre @ concat (map f xs) @ post) (length pre) sp bc ins esc objs =
         scan loads (pre @ concat (map f xs) @ post)
           (length pre + length (concat (map f xs))) sp bc ins esc objs"
  using assms
proof (induction xs arbitrary: pre)
  case Nil
  then show ?case by simp
next
  case (Cons x xs)
  let ?rest = "concat (map f xs)"
  have "scan loads (pre @ f x @ (?rest @ post)) (length pre) sp bc ins esc objs =
        scan loads (pre @ f x @ (?rest @ post)) (length pre + length (f x)) sp bc ins esc objs"
    by (rule Cons.prems) simp
  also have "\<dots> = scan loads ((pre @ f x) @ ?rest @ post) (length (pre @ f x)) sp bc ins esc objs"
    by simp
  also have "\<dots> = scan loads ((pre @ f x) @ ?rest @ post)
        (length (pre @ f x) + length ?rest) sp bc ins esc objs"
    by (rule Cons.IH) (simp add: Cons.prems)
  finally show ?case
    by (simp add: add.assoc)
qed

lemma skip_plain_char:
  assumes "plain c"
  shows "scan loads (pre @ [c] @ post) (length pre) sp bc ins False objs =
         scan loads (pre @ [c] @ post) (length pre + length [c]) sp bc ins False objs"
  using assms scan_plain [of "length pre" "pre @ [c] @ post" loads sp bc ins objs]
  by simp

lemma skip_plain:
  assumes "list_all plain w"
  shows "scan loads (pre @ w @ post) (length pre) sp bc ins False objs =
         scan loads (pre @ w @ post) (length pre + length w) sp bc ins False objs"
proof -
  have "scan loads (pre @ concat (map (\<lambda>c. [c]) w) @ post) (length pre) sp bc ins False objs =
        scan loads (pre @ concat (map (\<lambda>c. [c]) w) @ post)
          (length pre + length (concat (map (\<lambda>c. [c]) w))) sp bc ins False objs"
    using assms by (intro skip_concat skip_plain_char) (simp add: list_all_iff)
  moreover have "concat (map (\<lambda>c. [c]) w) = w"
    by (induction w) simp_all
  ultimately show ?thesis
    by simp
qed

lemma skip_str_char:
  assumes "wf_str_char x"
  shows "scan loads (pre @ render_str_char x @ post) (length pre) sp bc True False objs =
         scan loads (pre @ render_str_char x @ post)
           (length pre + length (render_str_char x)) sp bc True False objs"
proof (cases x)
  case (Lit c)
  with assms show ?thesis
    using scan_in_string [of "length pre" "pre @ [c] @ post" loads sp bc objs]
    by simp
next
  case (Esc c)
  have "scan loads (pre @ [backslash, c] @ post) (length pre) sp bc True False objs =
        scan loads (pre @ [backslash, c] @ post) (length pre + 1) sp bc True True objs"
    using scan_backslash [of "length pre" "pre @ [backslash, c] @ post" loads sp bc True objs]
    by simp
  also have "\<dots> = scan loads (pre @ [backslash, c] @ post) (length pre + 1 + 1) sp bc True False objs"
    by (rule scan_escaped) simp
  finally show ?thesis
    using Esc by (simp add: add.assoc)
qed

lemma skip_string:
  assumes "list_all wf_str_char cs"
  shows "scan loads (pre @ render (Str cs) @ post) (length pre) sp bc False False objs =
         scan loads (pre @ render (Str cs) @ post)
           (length pre + length (render (Str cs))) sp bc False False objs"
proof -
  let ?body = "concat (map render_str_char cs)"
  let ?buf = "pre @ render (Str cs) @ post"
  have buf: "?buf = (pre @ [dquote]) @ ?body @ (dquote # post)"
    by simp
  have "scan loads ?buf (length pre) sp bc False False objs =
        scan loads ?buf (length pre + 1) sp bc True False objs"
    using scan_dquote [of "length pre" ?buf loads sp bc False objs] by simp
  also have "\<dots> = scan loads ((pre @ [dquote]) @ ?body @ (dquote # post))
        (length (pre @ [dquote])) sp bc True False objs"
    by (simp only: buf) simp
  also have "\<dots> = scan loads ((pre @ [dquote]) @ ?body @ (dquote # post))
        (length (pre @ [dquote]) + length ?body) sp bc True False objs"
    using assms by (intro skip_concat skip_str_char) (simp add: list_all_iff)
  also have "\<dots> = scan loads ?buf (length pre + 1 + length ?body) sp bc True False objs"
    by simp
  also have "\<dots> = scan loads ?buf (length pre + 1 + length ?body + 1) sp bc False False objs"
    using scan_dquote [of "length pre + 1 + length ?body" ?buf loads sp bc True objs]
    by (simp add: nth_append)
  finally show ?thesis
    by (simp add: add.assoc)
qed

text \<open>Below the top level a whole item, nested records included, is passed over.\<close>

lemma skip_item:
  assumes "wf_item it" "bc > 0"
  shows "scan loads (pre @ render it @ post) (length pre) sp bc False False objs =
         scan loads (pre @ render it @ post)
           (length pre + length (render it)) sp bc False False objs"
  using assms
proof (induction it arbitrary: pre post bc)
  case (Chr c)
  then show ?case
    using skip_plain_char [of c loads pre post sp bc False objs] by simp
next
  case (Str cs)
  then show ?case
    using skip_string [of cs loads pre post sp bc objs] by simp
next
  case (Obj items)
  let ?body = "concat (map render items)"
  let ?buf = "pre @ render (Obj items) @ post"
  have buf: "?buf = (pre @ [lbrace]) @ ?body @ (rbrace # post)"
    by simp
  have inner: "scan loads (p @ render x @ q) (length p) sp (bc + 1) False False objs =
      scan loads (p @ render x @ q) (length p + length (render x)) sp (bc + 1) False False objs"
    if "x \<in> set items" for x p q
    using that Obj.prems by (intro Obj.IH) (simp_all add: list_all_iff)
  have "scan loads ?buf (length pre) sp bc False False objs =
        scan loads ?buf (length pre + 1) sp (bc + 1) False False objs"
    using scan_lbrace [of "length pre" ?buf loads sp bc objs] Obj.prems by simp
  also have "\<dots> = scan loads ((pre @ [lbrace]) @ ?body @ (rbrace # post))
        (length (pre @ [lbrace])) sp (bc + 1) False False objs"
    by (simp only: buf) simp
  also have "\<dots> = scan loads ((pre @ [lbrace]) @ ?body @ (rbrace # post))
        (length (pre @ [lbrace]) + length ?body) sp (bc + 1) False False objs"
    by (intro skip_concat inner)
  also have "\<dots> = scan loads ?buf (length pre + 1 + length ?body) sp (bc + 1) False False objs"
    by simp
  also have "\<dots> = scan loads ?buf (length pre + 1 + length ?body + 1) sp (bc + 1 - 1)
        False False objs"
    using scan_rbrace_inner [of "length pre + 1 + length ?body" ?buf "bc + 1" loads sp objs]
      Obj.prems
    by (simp add: nth_append)
  finally show ?case
    by (simp add: add.assoc)
qed

text \<open>
  At the top level the loop goes from the opening brace of a well-formed record to its
  closing brace, with the record's start recorded and the depth at 1.
\<close>

lemma reach_closing_brace:
  assumes "list_all wf_item items"
  shows "scan loads (pre @ render (Obj items) @ post) (length pre) sp 0 False False objs =
         scan loads (pre @ render (Obj items) @ post)
           (length pre + 1 + length (concat (map render items))) (length pre) 1 False False objs"
proof -
  let ?body = "concat (map render items)"
  let ?buf = "pre @ render (Obj items) @ post"
  have buf: "?buf = (pre @ [lbrace]) @ ?body @ (rbrace # post)"
    by simp
  have inner: "scan loads (p @ render x @ q) (length p) (length pre) 1 False False objs =
      scan loads (p @ render x @ q) (length p + length (render x)) (length pre) 1 False False objs"
    if "x \<in> set items" for x p q
    using that assms by (intro skip_item) (simp_all add: list_all_iff)
  have "scan loads ?buf (length pre) sp 0 False False objs =
        scan loads ?buf (length pre + 1) (length pre) 1 False False objs"
    using scan_lbrace [of "length pre" ?buf loads sp 0 objs] by simp
  also have "\<dots> = scan loads ((pre @ [lbrace]) @ ?body @ (rbrace # post))
        (length (pre @ [lbrace])) (length pre) 1 False False objs"
    by (simp only: buf) simp
  also have "\<dots> = scan loads ((pre @ [lbrace]) @ ?body @ (rbrace # post))
        (length (pre @ [lbrace]) + length ?body) (length pre) 1 False False objs"
    by (intro skip_concat inner)
  finally show ?thesis
    by simp
qed


text \<open>
  When \<^verbatim>\<open>json.loads\<close> raises on the record, the loop is left at the closing brace: the
  record stays in the buffer, and the scanner fields are at their initial values.
\<close>

lemma record_raises:
  assumes "list_all wf_item items" "loads (render (Obj items)) = Raised"
  shows "scan loads (pre @ render (Obj items) @ post) (length pre) sp 0 False False objs =
         (Raises, pre @ render (Obj items) @ post, 0, False, False)"
proof -
  let ?body = "concat (map render items)"
  let ?buf = "pre @ render (Obj items) @ post"
  let ?close = "length pre + 1 + length ?body"
  have cut: "slice (length pre) (?close + 1) ?buf = render (Obj items)"
    by (simp add: slice_def)
  have inside: "?close < length ?buf"
    by simp
  have brace: "?buf ! ?close = rbrace"
    by (simp add: nth_append)
  have raises: "loads (slice (length pre) (?close + 1) ?buf) = Raised"
    unfolding cut by (rule assms(2))
  have "scan loads ?buf (length pre) sp 0 False False objs =
        scan loads ?buf ?close (length pre) 1 False False objs"
    using assms(1) by (rule reach_closing_brace)
  also have "\<dots> = (Raises, ?buf, 0, False, False)"
    by (rule scan_rbrace_raises [where loads = loads, OF inside brace raises])
  finally show ?thesis .
qed




text \<open>
  When \<^verbatim>\<open>json.loads\<close> raises on the first record of the buffer, the call is left with the
  exception and the buffer as it was.
\<close>

lemma scan_first_record_raises:
  assumes "list_all plain junk" "list_all wf_item items" "loads (render (Obj items)) = Raised"
  shows "scan loads (junk @ render (Obj items) @ post) 0 sp 0 False False objs =
         (Raises, junk @ render (Obj items) @ post, 0, False, False)"
proof -
  have "scan loads ([] @ junk @ (render (Obj items) @ post)) (length ([] :: string))
          sp 0 False False objs =
        scan loads ([] @ junk @ (render (Obj items) @ post))
          (length ([] :: string) + length junk) sp 0 False False objs"
    using assms(1) by (rule skip_plain)
  then have "scan loads (junk @ render (Obj items) @ post) 0 sp 0 False False objs =
        scan loads (junk @ render (Obj items) @ post) (length junk) sp 0 False False objs"
    by simp
  also have "\<dots> = (Raises, junk @ render (Obj items) @ post, 0, False, False)"
    by (rule record_raises [where loads = loads, OF assms(2,3)])
  finally show ?thesis .
qed

section \<open>The extractor on split records\<close>

text \<open>
  Claim C1 does not hold of the code. The record \<^verbatim>\<open>{"a":1}\<close> fed in one chunk is
  returned. Fed as the two chunks \<^verbatim>\<open>{"a":\<close> and \<^verbatim>\<open>1}\<close> it is never returned: the first call
  leaves \<open>brace_count = 1\<close> and the text in the buffer, and the second call scans the
  buffer again from its first character with that count, so the opening brace is counted
  twice and the closing brace brings the count to 1, not to 0. \<^verbatim>\<open>json.loads\<close> is taken to
  parse every text it is given here (\<open>Loaded\<close>); in the second run it is never called.
\<close>

theorem feed_split_record_lost:
  \<open>feed_all Loaded [''{"a":1}''] (new_parser default_max_buffer_size) =
     ([Returns [''{"a":1}'']], new_parser default_max_buffer_size) \<and>
   feed_all Loaded [''{"a":'', ''1}''] (new_parser default_max_buffer_size) =
     ([Returns [], Returns []],
      (new_parser default_max_buffer_size)\<lparr>buffer := ''{"a":1}'', brace_count := 1\<rparr>)\<close>
  by (simp add: scan_eval)

section \<open>The buffer bound and the reset\<close>

lemma feed_max_buffer_size:
  "max_buffer_size (snd (feed loads data p)) = max_buffer_size p"
  by (simp add: feed_def truncate_buffer_def Let_def split: prod.splits)



lemma truncate_buffer_max:
  "max_buffer_size (truncate_buffer p) = max_buffer_size p"
  by (simp add: truncate_buffer_def)


lemma feed_all_max_buffer_size:
  "max_buffer_size (snd (feed_all loads chunks p)) = max_buffer_size p"
proof (induction chunks arbitrary: p)
  case Nil
  show ?case by simp
next
  case (Cons c chunks)
  have "max_buffer_size (snd (feed_all loads chunks (snd (feed loads c p)))) =
      max_buffer_size (snd (feed loads c p))"
    by (rule Cons.IH)
  then show ?case
    by (simp add: feed_max_buffer_size case_prod_unfold)
qed





text \<open>
  A record on which \<^verbatim>\<open>json.loads\<close> raises stays at the head of the buffer: as long as the
  buffer does not overflow, every call is left with the exception, whatever it is fed.
\<close>

lemma feed_record_raises:
  assumes "brace_count p = 0" "\<not> in_string p" "\<not> escape_next p"
    and "buffer p @ data = junk @ render (Obj items) @ post"
    and "list_all plain junk" "list_all wf_item items" "loads (render (Obj items)) = Raised"
    and "int (length (buffer p @ data)) \<le> max_buffer_size p"
  shows "feed loads data p = (Raises, p\<lparr>buffer := buffer p @ data\<rparr>)"
proof -
  have same: "p\<lparr>buffer := b, brace_count := 0, in_string := False, escape_next := False\<rparr> =
      p\<lparr>buffer := b\<rparr>" for b
    using assms(1-3) by (cases p) simp
  show ?thesis
    using assms(1-4,8)
      scan_first_record_raises [where loads = loads and post = post and sp = 0 and objs = "[]",
        OF assms(5-7)]
    by (simp add: feed_def truncate_buffer_def Let_def same del: render.simps)
qed

text \<open>
  For instance, when \<^verbatim>\<open>json.loads\<close> raises on the record \<^verbatim>\<open>{"n":1}\<close> only: the call that
  completes this record is left with the exception, and so are the two calls after it that
  feed the record \<^verbatim>\<open>{}\<close>, which is never returned.
\<close>

lemma feed_raises_again:
  \<open>feed_all (\<lambda>s. if s = ''{"n":1}'' then Raised else Loaded s) [''{"n":1}'', ''{}'', ''{}'']
     (new_parser default_max_buffer_size) =
   ([Raises, Raises, Raises],
    (new_parser default_max_buffer_size)\<lparr>buffer := ''{"n":1}{}{}''\<rparr>)\<close>
  by (simp add: scan_eval)


text \<open>
  The bound needs a positive maximum: with a maximum of 0 the slice \<^verbatim>\<open>[-0//2:]\<close> is the
  whole buffer, and nothing is cut.
\<close>

lemma feed_maximum_zero:
  "feed Loaded ''aaaaa'' (new_parser 0) = (Returns [], (new_parser 0)\<lparr>buffer := ''aaaaa''\<rparr>)"
  by (simp add: scan_eval)




end
